theory Spec2Isabelle
  imports Main
begin

section \<open>JavaScript strings and objects\<close>

text \<open>
  The client script \<^verbatim>\<open>static/app.js\<close> is embedded function by function. Strings
  are \<^typ>\<open>string\<close>; the three delimiters the script looks for (\<^verbatim>\<open>_\<close>, \<^verbatim>\<open>[\<close>,
  \<^verbatim>\<open>]\<close>) are ASCII, so splitting and replacing act on a UTF-8 byte string as
  they act on the UTF-16 string of the browser. The user-facing messages of the
  script are Vietnamese; they are written here without their diacritics.
\<close>

text \<open>\<^verbatim>\<open>s.startsWith(p)\<close>, also the attribute selector \<^verbatim>\<open>[name^="p"]\<close>.\<close>

definition startsWith :: "string \<Rightarrow> string \<Rightarrow> bool" where
  "startsWith s p = (take (length p) s = p)"

text \<open>\<^verbatim>\<open>s.replace(pat, rep)\<close> with a string pattern: only the first occurrence
  is replaced.\<close>

fun replace :: "string \<Rightarrow> string \<Rightarrow> string \<Rightarrow> string" where
  "replace [] pat rep = (if pat = [] then rep else [])"
| "replace (c # cs) pat rep =
     (if startsWith (c # cs) pat then rep @ drop (length pat) (c # cs)
      else c # replace cs pat rep)"

text \<open>\<^verbatim>\<open>s.split(d)\<close> for a one-character separator; the result is never empty.\<close>

fun split :: "string \<Rightarrow> char \<Rightarrow> string list" where
  "split [] d = [[]]"
| "split (c # cs) d =
     (if c = d then [] # split cs d
      else (case split cs d of [] \<Rightarrow> [[c]] | x # xs \<Rightarrow> (c # x) # xs))"

text \<open>\<^verbatim>\<open>xs[i]\<close>: \<^verbatim>\<open>undefined\<close> out of range is \<^term>\<open>None\<close>.\<close>

definition at_index :: "'a list \<Rightarrow> nat \<Rightarrow> 'a option" where
  "at_index xs i = (if i < length xs then Some (xs ! i) else None)"

text \<open>A property key: \<^verbatim>\<open>undefined\<close> used as a key is the string "undefined".\<close>

definition property_key :: "string option \<Rightarrow> string" where
  "property_key k = (case k of None \<Rightarrow> ''undefined'' | Some s \<Rightarrow> s)"

text \<open>
  A plain object whose keys are strings, as the list of its own properties in
  insertion order: \<^verbatim>\<open>o[k]\<close> is \<^term>\<open>map_of o' k\<close>, \<^verbatim>\<open>o[k] = v\<close> is
  \<open>obj_set\<close> (an existing key keeps its place, a new one goes last), and
  \<^verbatim>\<open>Object.keys(o)\<close> is \<open>obj_keys\<close>. The browser lists integer-like keys
  first; a mapping does not depend on that order.
\<close>

type_synonym 'v obj = "(string \<times> 'v) list"

primrec obj_set :: "string \<Rightarrow> 'v \<Rightarrow> 'v obj \<Rightarrow> 'v obj" where
  "obj_set k v [] = [(k, v)]"
| "obj_set k v (p # ps) = (if fst p = k then (k, v) # ps else p # obj_set k v ps)"

definition obj_keys :: "'v obj \<Rightarrow> string list" where
  "obj_keys ob = map fst ob"

section \<open>The question set and the rendered form\<close>

record option_ =
  o_label :: string
  o_text :: string
  o_image :: "string option"

record question =
  q_id :: string
  q_text :: string
  q_image :: "string option"
  q_multi :: bool
  q_options :: "option_ list"

datatype input_type = Checkbox | Radio

record input =
  i_type :: input_type
  i_name :: string
  i_value :: string
  i_id :: string
  i_checked :: bool

text \<open>
  The input that \<^verbatim>\<open>loadQuiz\<close> creates for option \<open>opt\<close> of question \<open>q\<close>
  (lines 104 to 110); a new input is not checked.
\<close>

definition make_input :: "question \<Rightarrow> option_ \<Rightarrow> input" where
  "make_input q opt =
     \<lparr> i_type = (if q_multi q then Checkbox else Radio),
       i_name = ''q_'' @ q_id q @ (if q_multi q then ''[]'' else ''''),
       i_value = o_label opt,
       i_id = ''q'' @ q_id q @ ''_'' @ o_label opt,
       i_checked = False \<rparr>"

text \<open>The inputs appended to the form by the two nested \<^verbatim>\<open>forEach\<close> loops, in
  document order.\<close>

definition render_inputs :: "question list \<Rightarrow> input list" where
  "render_inputs qs = concat (map (\<lambda>q. map (make_input q) (q_options q)) qs)"

section \<open>Answer collection in submitQuiz\<close>

text \<open>One round of the loop of lines 127 to 131.\<close>

definition collect_input :: "string list obj \<Rightarrow> input \<Rightarrow> string list obj" where
  "collect_input answers inp =
     (let name = replace (i_name inp) ''[]'' '''';
          answers1 = (case map_of answers name of
                        None \<Rightarrow> obj_set name [] answers
                      | Some _ \<Rightarrow> answers)
      in if i_checked inp
         then (case map_of answers1 name of
                 None \<Rightarrow> answers1
               | Some vs \<Rightarrow> obj_set name (vs @ [i_value inp]) answers1)
         else answers1)"

text \<open>\<^verbatim>\<open>document.querySelectorAll('input[name^="q_"]')\<close> followed by the loop.\<close>

definition collect_answers :: "input list \<Rightarrow> string list obj" where
  "collect_answers inputs =
     foldl collect_input [] (filter (\<lambda>inp. startsWith (i_name inp) ''q_'') inputs)"

text \<open>\<^verbatim>\<open>k.split('_')[1]\<close>, used as a property key.\<close>

definition qid_of_key :: "string \<Rightarrow> string" where
  "qid_of_key k = property_key (at_index (split k (CHR ''_'')) 1)"

text \<open>One round of the loop of lines 133 to 136.\<close>

definition format_key :: "string list obj \<Rightarrow> string list obj \<Rightarrow> string \<Rightarrow> string list obj" where
  "format_key answers formatted k =
     (case map_of answers k of
        None \<Rightarrow> formatted
      | Some vs \<Rightarrow> obj_set (qid_of_key k) vs formatted)"

definition format_answers :: "string list obj \<Rightarrow> string list obj" where
  "format_answers answers = foldl (format_key answers) [] (obj_keys answers)"

text \<open>The \<^verbatim>\<open>answers\<close> member of the body sent to the submission endpoint.\<close>

definition serialize_answers :: "input list \<Rightarrow> string list obj" where
  "serialize_answers inputs = format_answers (collect_answers inputs)"

section \<open>Server replies\<close>

text \<open>
  The parsed JSON body of a reply, with the members the script reads; a missing
  member is \<^term>\<open>None\<close> (\<^verbatim>\<open>undefined\<close>), a missing \<^verbatim>\<open>ok\<close> is falsy. Numbers
  are the integers the scoring endpoint returns. A \<open>response\<close> is what an
  \<^verbatim>\<open>await fetch(...)\<close> followed by \<^verbatim>\<open>await res.json()\<close> yields: \<open>Failed\<close> is a
  rejected promise (network failure or a body that is not JSON).
\<close>

record reply =
  d_ok :: bool
  d_error :: "string option"
  d_quiz_id :: "string option"
  d_score :: "int option"
  d_total :: "int option"
  d_questions :: "question list option"

datatype response = Failed | Json reply

text \<open>\<^verbatim>\<open>x || fallback\<close> for an optional string: \<^verbatim>\<open>undefined\<close> and the empty
  string are falsy.\<close>

definition or_else :: "string option \<Rightarrow> string \<Rightarrow> string" where
  "or_else x fallback =
     (case x of None \<Rightarrow> fallback | Some s \<Rightarrow> if s = [] then fallback else s)"

definition truthy :: "string option \<Rightarrow> bool" where
  "truthy x = (case x of None \<Rightarrow> False | Some s \<Rightarrow> s \<noteq> [])"

section \<open>Numbers as text\<close>

fun digits :: "nat \<Rightarrow> string" where
  "digits n =
     (if n < 10 then [''0123456789'' ! n]
      else digits (n div 10) @ [''0123456789'' ! (n mod 10)])"

declare digits.simps [simp del]

text \<open>\<^verbatim>\<open>n.toString()\<close> for an integer.\<close>

definition toString :: "int \<Rightarrow> string" where
  "toString n = (if n < 0 then CHR ''-'' # digits (nat (- n)) else digits (nat n))"

text \<open>An optional number inside a template literal.\<close>

definition interpolate :: "int option \<Rightarrow> string" where
  "interpolate x = (case x of None \<Rightarrow> ''undefined'' | Some n \<Rightarrow> toString n)"

text \<open>\<^verbatim>\<open>s.padStart(n, c)\<close> for a one-character filler.\<close>

definition padStart :: "string \<Rightarrow> nat \<Rightarrow> char \<Rightarrow> string" where
  "padStart s n c = replicate (n - length s) c @ s"

text \<open>The remainder operator \<^verbatim>\<open>%\<close>: the result has the sign of the dividend.\<close>

definition js_rem :: "int \<Rightarrow> int \<Rightarrow> int" where
  "js_rem a b = (if a < 0 then - ((- a) mod \<bar>b\<bar>) else a mod \<bar>b\<bar>)"

section \<open>The quiz page\<close>

text \<open>
  The state of the quiz page that the script reads or writes: the constants of
  the hosting page (\<^verbatim>\<open>QUIZ_ID\<close>, \<^verbatim>\<open>STUDENT_NAME\<close>, \<^verbatim>\<open>DURATION\<close>), the variable
  \<^verbatim>\<open>remaining\<close>, the elements it touches, and the callbacks it has scheduled
  with \<^verbatim>\<open>setTimeout\<close> that have not run yet. Of the cards built by
  \<^verbatim>\<open>loadQuiz\<close> only the inputs are kept: nothing reads the rest back.
\<close>

record page =
  QUIZ_ID :: string
  STUDENT_NAME :: string
  DURATION :: int
  remaining :: int
  timerText :: string
  timerDisplay :: string
  pendingTicks :: nat
  formInputs :: "input list"
  submitDisabled :: bool
  submitStatus :: string
  submitStatusClass :: string
  resultModals :: nat
  hasBanner :: bool
  bannerText :: string
  bannerDisplay :: string
  pendingBannerClears :: nat

text \<open>
  What a run of the page exchanges with its environment: a \<^verbatim>\<open>confirm\<close>
  dialog with the answer the student gave, a request sent with \<^verbatim>\<open>fetch\<close>,
  the response that a suspended call receives, a promise rejected with no
  handler.
\<close>

datatype io =
    Confirm bool
  | Req_quiz string
  | Req_submit string "string list obj"
  | Req_log string string string
  | Got_quiz response
  | Got_submit response
  | Got_log response
  | Uncaught

text \<open>An \<^verbatim>\<open>async\<close> function suspended at its \<^verbatim>\<open>await\<close>.\<close>

datatype pending = Await_quiz | Await_submit | Await_log

type_synonym outcome = "page \<times> io list \<times> pending option"

text \<open>Lines 79 to 83.\<close>

definition renderTimer :: "page \<Rightarrow> page" where
  "renderTimer s =
     (let m = padStart (toString (remaining s div 60)) 2 (CHR ''0'');
          sec = padStart (toString (js_rem (remaining s) 60)) 2 (CHR ''0'')
      in s\<lparr>timerText := m @ '':'' @ sec\<rparr>)"

text \<open>
  \<^verbatim>\<open>submitQuiz\<close> up to its first \<^verbatim>\<open>await\<close> (lines 123 to 137). The first
  argument is the student's answer to the \<^verbatim>\<open>confirm\<close> dialog.
\<close>

definition submitQuiz_begin :: "bool \<Rightarrow> string \<Rightarrow> page \<Rightarrow> outcome" where
  "submitQuiz_begin answer quizId s =
     (if \<not> answer then (s, [Confirm answer], None)
      else let s1 = s\<lparr>submitDisabled := True\<rparr>;
               formatted = serialize_answers (formInputs s1)
           in (s1, [Confirm answer, Req_submit quizId formatted], Some Await_submit))"

text \<open>\<^verbatim>\<open>submitQuiz\<close> from the reply on (lines 138 to 170).\<close>

definition submitQuiz_resume :: "response \<Rightarrow> page \<Rightarrow> outcome" where
  "submitQuiz_resume r s =
     (case r of
        Failed \<Rightarrow> (s, [Uncaught], None)
      | Json data \<Rightarrow>
          let s1 =
            (if d_ok data
             then s\<lparr>submitStatus :=
                      ''Da nop! Diem: '' @ interpolate (d_score data) @ ''/''
                        @ interpolate (d_total data),
                    submitStatusClass := ''text-success'',
                    resultModals := resultModals s + 1\<rparr>
             else s\<lparr>submitStatus := or_else (d_error data) ''Loi nop bai'',
                    submitStatusClass := ''text-danger''\<rparr>)
          in (s1\<lparr>submitDisabled := False\<rparr>, [], None))"

text \<open>
  Lines 84 to 92. The call \<^verbatim>\<open>submitQuiz(QUIZ_ID)\<close> runs the function up to its
  \<^verbatim>\<open>await\<close> inside the tick; \<^verbatim>\<open>setTimeout(tick, 1000)\<close> adds a pending tick.
\<close>

definition tick :: "bool \<Rightarrow> page \<Rightarrow> outcome" where
  "tick answer s =
     (let s1 = renderTimer (s\<lparr>remaining := remaining s - 1\<rparr>)
      in if remaining s1 \<le> 0 then submitQuiz_begin answer (QUIZ_ID s1) s1
         else (s1\<lparr>pendingTicks := pendingTicks s1 + 1\<rparr>, [], None))"

text \<open>
  \<^verbatim>\<open>loadQuiz\<close>: the request (line 94), then the rest (lines 95 to 119). A
  body with neither an error nor questions makes \<^verbatim>\<open>data.questions.forEach\<close>
  throw; the typesetting pass changes nothing of the state kept here.
\<close>

definition loadQuiz_begin :: "page \<Rightarrow> outcome" where
  "loadQuiz_begin s = (s, [Req_quiz (QUIZ_ID s)], Some Await_quiz)"

definition loadQuiz_resume :: "response \<Rightarrow> page \<Rightarrow> outcome" where
  "loadQuiz_resume r s =
     (case r of
        Failed \<Rightarrow> (s, [Uncaught], None)
      | Json data \<Rightarrow>
          if truthy (d_error data)
          then (s\<lparr>submitStatus := the (d_error data)\<rparr>, [], None)
          else (case d_questions data of
                  None \<Rightarrow> (s, [Uncaught], None)
                | Some qs \<Rightarrow>
                    let s1 = s\<lparr>formInputs := formInputs s @ render_inputs qs\<rparr>;
                        s2 = renderTimer (s1\<lparr>timerDisplay := ''block''\<rparr>)
                    in (s2\<lparr>pendingTicks := pendingTicks s2 + 1\<rparr>, [], None)))"

text \<open>Lines 173 to 181; the banner's text stands for the alert it is wrapped in.\<close>

definition showAntiCheat :: "string \<Rightarrow> page \<Rightarrow> page" where
  "showAntiCheat msg s =
     (if \<not> hasBanner s then s
      else s\<lparr>bannerText := msg, bannerDisplay := ''block'',
             pendingBannerClears := pendingBannerClears s + 1\<rparr>)"

definition banner_timeout :: "page \<Rightarrow> page" where
  "banner_timeout s = s\<lparr>bannerDisplay := ''none'', bannerText := []\<rparr>"

text \<open>The listener for \<^verbatim>\<open>blur\<close> (lines 182 to 191), and the end of its request:
  \<^verbatim>\<open>.catch(()=>{})\<close> handles a rejection, nothing reads the reply.\<close>

definition on_blur :: "page \<Rightarrow> outcome" where
  "on_blur s =
     (showAntiCheat ''Ban vua roi khoi tab - hanh dong co the bi ghi nhan.'' s,
      [Req_log (QUIZ_ID s) (STUDENT_NAME s) ''blur''], Some Await_log)"

definition log_resume :: "response \<Rightarrow> page \<Rightarrow> outcome" where
  "log_resume r s = (s, [], None)"

text \<open>
  The page when the script starts on it (lines 72 to 78 and 121): \<^verbatim>\<open>remaining\<close>
  is \<^verbatim>\<open>DURATION\<close>, the timer element is shown, the form is empty and the submit
  control is enabled.
\<close>

definition start_page :: "string \<Rightarrow> string \<Rightarrow> int \<Rightarrow> bool \<Rightarrow> page" where
  "start_page quizId student duration banner =
     \<lparr> QUIZ_ID = quizId, STUDENT_NAME = student, DURATION = duration,
       remaining = duration, timerText = [], timerDisplay = ''block'',
       pendingTicks = 0, formInputs = [], submitDisabled = False,
       submitStatus = [], submitStatusClass = [], resultModals = 0,
       hasBanner = banner, bannerText = [], bannerDisplay = ''none'',
       pendingBannerClears = 0 \<rparr>"

section \<open>Runs of the quiz page\<close>

text \<open>
  The page is single-threaded: between two suspension points a callback runs to
  its end. A \<open>world\<close> is the page, the suspended \<^verbatim>\<open>async\<close> calls and what
  has been observed so far; an \<open>event\<close> is what the browser does next.
\<close>

record world =
  doc :: page
  inflight :: "pending list"
  trace :: "io list"

datatype event =
    Tick bool
  | Click bool
  | Deliver pending response
  | Blur
  | Banner_timeout
  | Select nat

definition emit :: "world \<Rightarrow> outcome \<Rightarrow> world" where
  "emit w out =
     (case out of (s, ios, p) \<Rightarrow>
        \<lparr> doc = s,
          inflight = inflight w @ (case p of None \<Rightarrow> [] | Some x \<Rightarrow> [x]),
          trace = trace w @ ios \<rparr>)"

definition resume :: "pending \<Rightarrow> response \<Rightarrow> page \<Rightarrow> outcome" where
  "resume p r s =
     (case p of
        Await_quiz \<Rightarrow> loadQuiz_resume r s
      | Await_submit \<Rightarrow> submitQuiz_resume r s
      | Await_log \<Rightarrow> log_resume r s)"

definition got :: "pending \<Rightarrow> response \<Rightarrow> io" where
  "got p r =
     (case p of
        Await_quiz \<Rightarrow> Got_quiz r
      | Await_submit \<Rightarrow> Got_submit r
      | Await_log \<Rightarrow> Got_log r)"

text \<open>
  The browser's part when the student activates input \<open>i\<close>: a checkbox
  toggles, a radio button becomes the checked one of the buttons of its name.
\<close>

definition select_input :: "nat \<Rightarrow> input list \<Rightarrow> input list" where
  "select_input i xs =
     (case at_index xs i of
        None \<Rightarrow> xs
      | Some x \<Rightarrow>
          (case i_type x of
             Checkbox \<Rightarrow> xs[i := x\<lparr>i_checked := \<not> i_checked x\<rparr>]
           | Radio \<Rightarrow>
               (map (\<lambda>y. if i_type y = Radio \<and> i_name y = i_name x
                          then y\<lparr>i_checked := False\<rparr> else y) xs)
                 [i := x\<lparr>i_checked := True\<rparr>]))"

text \<open>
  Modelled from the spec: the markup that holds the submit control is not part
  of \<^verbatim>\<open>app.js\<close>. The control is the manual trigger: activated, it calls
  \<^verbatim>\<open>submitQuiz(QUIZ_ID)\<close>, and while it is disabled it prevents manual
  submission attempts.
\<close>

definition click :: "bool \<Rightarrow> world \<Rightarrow> world" where
  "click a w =
     (if submitDisabled (doc w) then w
      else emit w (submitQuiz_begin a (QUIZ_ID (doc w)) (doc w)))"

text \<open>
  One event. A tick runs only if one is scheduled, and takes the answer to the
  dialog it may open; a reply is delivered only to a call that waits for it.
\<close>

fun step :: "event \<Rightarrow> world \<Rightarrow> world" where
  "step (Tick a) w =
     (if pendingTicks (doc w) = 0 then w
      else emit w (tick a ((doc w)\<lparr>pendingTicks := pendingTicks (doc w) - 1\<rparr>)))"
| "step (Click a) w = click a w"
| "step (Deliver p r) w =
     (if p \<in> set (inflight w)
      then emit (w\<lparr>inflight := remove1 p (inflight w), trace := trace w @ [got p r]\<rparr>)
             (resume p r (doc w))
      else w)"
| "step Blur w = emit w (on_blur (doc w))"
| "step Banner_timeout w =
     (if pendingBannerClears (doc w) = 0 then w
      else w\<lparr>doc := banner_timeout
                 ((doc w)\<lparr>pendingBannerClears := pendingBannerClears (doc w) - 1\<rparr>)\<rparr>)"
| "step (Select i) w =
     w\<lparr>doc := (doc w)\<lparr>formInputs := select_input i (formInputs (doc w))\<rparr>\<rparr>"

definition run :: "event list \<Rightarrow> world \<Rightarrow> world" where
  "run es w = fold step es w"

text \<open>The script has started: \<^verbatim>\<open>loadQuiz()\<close> has sent its request.\<close>

definition start_world :: "string \<Rightarrow> string \<Rightarrow> int \<Rightarrow> bool \<Rightarrow> world" where
  "start_world quizId student duration banner =
     emit \<lparr> doc = start_page quizId student duration banner, inflight = [], trace = [] \<rparr>
       (loadQuiz_begin (start_page quizId student duration banner))"

text \<open>The exam has started: the question set \<open>qs\<close> has arrived and is rendered.\<close>

definition exam_world :: "string \<Rightarrow> string \<Rightarrow> int \<Rightarrow> bool \<Rightarrow> question list \<Rightarrow> world" where
  "exam_world quizId student duration banner qs =
     step (Deliver Await_quiz
             (Json \<lparr> d_ok = False, d_error = None, d_quiz_id = None, d_score = None,
                     d_total = None, d_questions = Some qs \<rparr>))
       (start_world quizId student duration banner)"

text \<open>Counting in a trace: requests to the submission endpoint, accepted
  submissions, confirmation dialogs and the accepted ones among them.\<close>

fun is_submit :: "io \<Rightarrow> bool" where
  "is_submit (Req_submit q a) = True"
| "is_submit x = False"

fun is_accepted :: "io \<Rightarrow> bool" where
  "is_accepted (Got_submit (Json d)) = d_ok d"
| "is_accepted x = False"

fun is_confirm :: "io \<Rightarrow> bool" where
  "is_confirm (Confirm a) = True"
| "is_confirm x = False"

definition count :: "(io \<Rightarrow> bool) \<Rightarrow> io list \<Rightarrow> nat" where
  "count P tr = length (filter P tr)"

section \<open>The landing page\<close>

record landing =
  access_code :: string
  classSel :: string
  nameSel :: string
  currentCode :: string
  codeStatus :: string
  joinStatus :: string
  studentCodeFormDisplay :: string
  studentFormDisplay :: string
  location_href :: "string option"

datatype lio =
    Req_check string
  | Req_register string string
  | Req_join string
  | Got_check string response
  | Got_register response
  | Got_join response
  | Unhandled

text \<open>A suspended call; \<^verbatim>\<open>checkCode\<close> keeps its local \<^verbatim>\<open>code\<close>.\<close>

datatype lpending = Await_check string | Await_register | Await_join

type_synonym loutcome = "landing \<times> lio list \<times> lpending option"

text \<open>
  \<^verbatim>\<open>s.trim()\<close>. It removes, at both ends, the white space and the line
  terminators of the language: U+0009 to U+000D, U+0020, U+00A0, U+1680, U+2000
  to U+200A, U+2028, U+2029, U+202F, U+205F, U+3000 and U+FEFF, here each as
  its UTF-8 bytes. \<open>strip ws s\<close> removes from the start of \<open>s\<close> every
  leading occurrence of a member of \<open>ws\<close>; the end of a string is the start
  of its reverse.
\<close>

definition white_space :: "string list" where
  "white_space =
     [[CHR 0x09], [CHR 0x0A], [CHR 0x0B], [CHR 0x0C], [CHR 0x0D], [CHR 0x20],
      [CHR 0xC2, CHR 0xA0], [CHR 0xE1, CHR 0x9A, CHR 0x80],
      [CHR 0xE2, CHR 0x80, CHR 0x80], [CHR 0xE2, CHR 0x80, CHR 0x81],
      [CHR 0xE2, CHR 0x80, CHR 0x82], [CHR 0xE2, CHR 0x80, CHR 0x83],
      [CHR 0xE2, CHR 0x80, CHR 0x84], [CHR 0xE2, CHR 0x80, CHR 0x85],
      [CHR 0xE2, CHR 0x80, CHR 0x86], [CHR 0xE2, CHR 0x80, CHR 0x87],
      [CHR 0xE2, CHR 0x80, CHR 0x88], [CHR 0xE2, CHR 0x80, CHR 0x89],
      [CHR 0xE2, CHR 0x80, CHR 0x8A], [CHR 0xE2, CHR 0x80, CHR 0xA8],
      [CHR 0xE2, CHR 0x80, CHR 0xA9], [CHR 0xE2, CHR 0x80, CHR 0xAF],
      [CHR 0xE2, CHR 0x81, CHR 0x9F], [CHR 0xE3, CHR 0x80, CHR 0x80],
      [CHR 0xEF, CHR 0xBB, CHR 0xBF]]"

function strip :: "string list \<Rightarrow> string \<Rightarrow> string" where
  "strip ws s =
     (case find (\<lambda>w. w \<noteq> [] \<and> startsWith s w) ws of
        None \<Rightarrow> s
      | Some w \<Rightarrow> strip ws (drop (length w) s))"
  by pat_completeness auto
termination
proof (relation "measure (\<lambda>(ws, s). length s)")
  show "wf (measure (\<lambda>(ws, s). length s))" by simp
next
  fix ws :: "string list" and s w :: string
  assume "find (\<lambda>w. w \<noteq> [] \<and> startsWith s w) ws = Some w"
  then have "w \<noteq> []" and "take (length w) s = w"
    by (auto simp add: find_Some_iff startsWith_def)
  then have "s \<noteq> []" by auto
  with \<open>w \<noteq> []\<close> show "((ws, drop (length w) s), (ws, s)) \<in> measure (\<lambda>(ws, s). length s)"
    by simp
qed

declare strip.simps [simp del]

definition trim :: "string \<Rightarrow> string" where
  "trim s = rev (strip (map rev white_space) (rev (strip white_space s)))"

text \<open>\<^verbatim>\<open>checkCode\<close>: lines 37 to 39, then lines 40 to 47.\<close>

definition checkCode_begin :: "landing \<Rightarrow> loutcome" where
  "checkCode_begin s =
     (let code = trim (access_code s)
      in if code = [] then (s\<lparr>codeStatus := ''Vui long nhap ma ky thi!''\<rparr>, [], None)
         else (s, [Req_check code], Some (Await_check code)))"

definition checkCode_resume :: "string \<Rightarrow> response \<Rightarrow> landing \<Rightarrow> loutcome" where
  "checkCode_resume code r s =
     (case r of
        Failed \<Rightarrow> (s, [Unhandled], None)
      | Json data \<Rightarrow>
          if d_ok data
          then (s\<lparr>currentCode := code, codeStatus := [],
                  studentCodeFormDisplay := ''none'',
                  studentFormDisplay := ''block''\<rparr>, [], None)
          else (s\<lparr>codeStatus := or_else (d_error data) ''Loi kiem tra ma''\<rparr>, [], None))"

text \<open>
  \<^verbatim>\<open>joinQuiz\<close>: lines 51 to 55 up to the request of \<^verbatim>\<open>registerName\<close>, lines 56
  and 57 once \<^verbatim>\<open>registerName\<close> has returned, lines 58 to 60 after the reply of
  the join endpoint.
\<close>

definition joinQuiz_begin :: "landing \<Rightarrow> loutcome" where
  "joinQuiz_begin s =
     (let cls = classSel s; name = nameSel s
      in if cls = [] then (s\<lparr>joinStatus := ''Vui long chon lop!''\<rparr>, [], None)
         else if name = [] then (s\<lparr>joinStatus := ''Vui long chon ten!''\<rparr>, [], None)
         else (s, [Req_register name cls], Some Await_register))"

definition joinQuiz_registered :: "response \<Rightarrow> landing \<Rightarrow> loutcome" where
  "joinQuiz_registered r s =
     (case r of
        Failed \<Rightarrow> (s, [Unhandled], None)
      | Json rc \<Rightarrow>
          if \<not> d_ok rc
          then (s\<lparr>joinStatus := or_else (d_error rc) ''Loi luu ten''\<rparr>, [], None)
          else (s, [Req_join (currentCode s)], Some Await_join))"

definition joinQuiz_joined :: "response \<Rightarrow> landing \<Rightarrow> loutcome" where
  "joinQuiz_joined r s =
     (case r of
        Failed \<Rightarrow> (s, [Unhandled], None)
      | Json data \<Rightarrow>
          if d_ok data
          then (s\<lparr>location_href := Some (''/quiz/'' @ property_key (d_quiz_id data))\<rparr>,
                [], None)
          else (s\<lparr>joinStatus := or_else (d_error data) ''Loi tham gia''\<rparr>, [], None))"


text \<open>
  Runs of the landing page. The student types a code, chooses a class and a
  name, has the code checked and joins; choosing a class empties the name
  selector (line 18).
\<close>

record lworld =
  ldoc :: landing
  linflight :: "lpending list"
  ltrace :: "lio list"

datatype levent =
    Type_code string
  | Choose_class string
  | Choose_name string
  | Check
  | Join
  | Ldeliver lpending response

definition lemit :: "lworld \<Rightarrow> loutcome \<Rightarrow> lworld" where
  "lemit w out =
     (case out of (s, ios, p) \<Rightarrow>
        \<lparr> ldoc = s,
          linflight = linflight w @ (case p of None \<Rightarrow> [] | Some x \<Rightarrow> [x]),
          ltrace = ltrace w @ ios \<rparr>)"

definition lresume :: "lpending \<Rightarrow> response \<Rightarrow> landing \<Rightarrow> loutcome" where
  "lresume p r s =
     (case p of
        Await_check code \<Rightarrow> checkCode_resume code r s
      | Await_register \<Rightarrow> joinQuiz_registered r s
      | Await_join \<Rightarrow> joinQuiz_joined r s)"

definition lgot :: "lpending \<Rightarrow> response \<Rightarrow> lio" where
  "lgot p r =
     (case p of
        Await_check code \<Rightarrow> Got_check code r
      | Await_register \<Rightarrow> Got_register r
      | Await_join \<Rightarrow> Got_join r)"

text \<open>
  Modelled from the spec: the markup of the landing page is not part of
  \<^verbatim>\<open>app.js\<close>. The class selector, the name selector and the control that
  calls \<^verbatim>\<open>joinQuiz()\<close> are those of the student form, the element
  \<^verbatim>\<open>student-form\<close> that \<^verbatim>\<open>checkCode\<close> displays after a successful check, so
  that the Session Joiner runs only after the Access Gate has succeeded. The
  student can use them only while that form is displayed.
\<close>

definition student_form_shown :: "landing \<Rightarrow> bool" where
  "student_form_shown s = (studentFormDisplay s \<noteq> ''none'')"

text \<open>
  One event. \<open>Check\<close> is a call of \<^verbatim>\<open>checkCode()\<close>, at any time; \<open>Join\<close>
  is a call of \<^verbatim>\<open>joinQuiz()\<close> from the student form. A reply is delivered
  only to a call that waits for it.
\<close>

fun lstep :: "levent \<Rightarrow> lworld \<Rightarrow> lworld" where
  "lstep (Type_code c) w = w\<lparr>ldoc := (ldoc w)\<lparr>access_code := c\<rparr>\<rparr>"
| "lstep (Choose_class c) w =
     (if student_form_shown (ldoc w)
      then w\<lparr>ldoc := (ldoc w)\<lparr>classSel := c, nameSel := []\<rparr>\<rparr>
      else w)"
| "lstep (Choose_name n) w =
     (if student_form_shown (ldoc w) then w\<lparr>ldoc := (ldoc w)\<lparr>nameSel := n\<rparr>\<rparr> else w)"
| "lstep Check w = lemit w (checkCode_begin (ldoc w))"
| "lstep Join w =
     (if student_form_shown (ldoc w) then lemit w (joinQuiz_begin (ldoc w)) else w)"
| "lstep (Ldeliver p r) w =
     (if p \<in> set (linflight w)
      then lemit (w\<lparr>linflight := remove1 p (linflight w), ltrace := ltrace w @ [lgot p r]\<rparr>)
             (lresume p r (ldoc w))
      else w)"

definition lrun :: "levent list \<Rightarrow> lworld \<Rightarrow> lworld" where
  "lrun es w = fold lstep es w"

text \<open>
  The landing page when the script starts: \<^verbatim>\<open>currentCode\<close> is the empty string
  (line 35). Whether the markup shows the student form at once is not in
  \<^verbatim>\<open>app.js\<close>; \<open>shown\<close> is its initial \<^verbatim>\<open>display\<close>.
\<close>

definition start_landing :: "string \<Rightarrow> lworld" where
  "start_landing shown =
     \<lparr> ldoc = \<lparr> access_code = [], classSel = [], nameSel = [], currentCode = [],
                codeStatus = [], joinStatus = [], studentCodeFormDisplay = ''none'',
                studentFormDisplay = shown, location_href = None \<rparr>,
       linflight = [], ltrace = [] \<rparr>"

section \<open>Notions used to state the properties\<close>

text \<open>An accepted confirmation dialog.\<close>

fun is_yes :: "io \<Rightarrow> bool" where
  "is_yes (Confirm a) = a"
| "is_yes x = False"

text \<open>A reply that accepts a request, with a score of 1 out of 2.\<close>

definition accepted :: reply where
  "accepted = \<lparr> d_ok = True, d_error = None, d_quiz_id = Some ''Q9'', d_score = Some 1,
                d_total = Some 2, d_questions = None \<rparr>"

text \<open>
  The events of the integrity reporter, what it shows in a trace, and the rest
  of a world: the page without the banner, the suspended calls and the trace
  without the reports.
\<close>

fun integrity :: "event \<Rightarrow> bool" where
  "integrity Blur = True"
| "integrity Banner_timeout = True"
| "integrity (Deliver Await_log r) = True"
| "integrity e = False"

fun is_log :: "io \<Rightarrow> bool" where
  "is_log (Req_log q s e) = True"
| "is_log (Got_log r) = True"
| "is_log x = False"

definition exam_part :: "page \<Rightarrow> page" where
  "exam_part s = s\<lparr>bannerText := [], bannerDisplay := [], pendingBannerClears := 0\<rparr>"

definition exam_view :: "world \<Rightarrow> world" where
  "exam_view w =
     \<lparr> doc = exam_part (doc w),
       inflight = filter (\<lambda>p. p \<noteq> Await_log) (inflight w),
       trace = filter (\<lambda>x. \<not> is_log x) (trace w) \<rparr>"

text \<open>
  On the landing page: the code that the checks of a trace have left retained,
  if one of them returned ok (\<open>cur\<close> is what was retained before the trace);
  whether every join request of a trace carries the code retained when it is
  sent; and whether a trace entry is a successful check of code \<open>c\<close>.
\<close>

fun retained :: "string option \<Rightarrow> lio list \<Rightarrow> string option" where
  "retained cur [] = cur"
| "retained cur (Got_check c (Json d) # tr) = retained (if d_ok d then Some c else cur) tr"
| "retained cur (x # tr) = retained cur tr"

fun joins_ok :: "string option \<Rightarrow> lio list \<Rightarrow> bool" where
  "joins_ok cur [] = True"
| "joins_ok cur (Req_join c # tr) = (cur = Some c \<and> joins_ok cur tr)"
| "joins_ok cur (Got_check c (Json d) # tr) = joins_ok (if d_ok d then Some c else cur) tr"
| "joins_ok cur (x # tr) = joins_ok cur tr"

fun verified_by :: "string \<Rightarrow> lio \<Rightarrow> bool" where
  "verified_by c (Got_check c' (Json d)) = (c' = c \<and> d_ok d)"
| "verified_by c x = False"

definition linv :: "lworld \<Rightarrow> bool" where
  "linv w =
     (currentCode (ldoc w) = (case retained None (ltrace w) of None \<Rightarrow> [] | Some c \<Rightarrow> c)
      \<and> joins_ok None (ltrace w)
      \<and> (student_form_shown (ldoc w) \<or> Await_register \<in> set (linflight w) \<longrightarrow>
           retained None (ltrace w) \<noteq> None))"

text \<open>
  For the collected answers: \<^verbatim>\<open>s.includes(p)\<close>; an id that has neither an
  underscore nor the pair of brackets in it; the name of the inputs of a
  question; a form that shows the question set \<open>qs\<close> with some inputs checked;
  the labels checked for a question, in document order; the key under which
  the loop of lines 127 to 131 files an input, and what it files under a key.
\<close>

fun contains :: "string \<Rightarrow> string \<Rightarrow> bool" where
  "contains [] p = (p = [])"
| "contains (c # cs) p = (startsWith (c # cs) p \<or> contains cs p)"

definition plain_id :: "string \<Rightarrow> bool" where
  "plain_id s = (CHR ''_'' \<notin> set s \<and> \<not> contains s ''[]'')"

definition input_name :: "question \<Rightarrow> string" where
  "input_name q = ''q_'' @ q_id q @ (if q_multi q then ''[]'' else '''')"

definition form_state :: "question list \<Rightarrow> input list \<Rightarrow> bool" where
  "form_state qs inputs = (map (\<lambda>i. i\<lparr>i_checked := False\<rparr>) inputs = render_inputs qs)"

definition selected :: "question \<Rightarrow> input list \<Rightarrow> string list" where
  "selected q inputs =
     map i_value (filter (\<lambda>i. i_checked i \<and> i_name i = input_name q) inputs)"

definition answer_key :: "input \<Rightarrow> string" where
  "answer_key i = replace (i_name i) ''[]'' ''''"

definition filed :: "string \<Rightarrow> input list \<Rightarrow> string list" where
  "filed k ins = map i_value (filter (\<lambda>i. i_checked i \<and> answer_key i = k) ins)"

text \<open>A question with options of the given labels, for the examples.\<close>

definition ask :: "string \<Rightarrow> bool \<Rightarrow> string list \<Rightarrow> question" where
  "ask i m ls =
     \<lparr> q_id = i, q_text = ''?'', q_image = None, q_multi = m,
       q_options = map (\<lambda>l. \<lparr> o_label = l, o_text = ''.'', o_image = None \<rparr>) ls \<rparr>"

section \<open>Runs and traces\<close>

lemmas quiz_defs = run_def exam_world_def start_world_def emit_def loadQuiz_begin_def resume_def
  got_def loadQuiz_resume_def truthy_def Let_def start_page_def renderTimer_def tick_def
  submitQuiz_begin_def submitQuiz_resume_def count_def accepted_def click_def

lemmas handler_defs = tick_def submitQuiz_begin_def submitQuiz_resume_def loadQuiz_resume_def
  log_resume_def on_blur_def showAntiCheat_def banner_timeout_def renderTimer_def resume_def
  got_def emit_def click_def Let_def

lemma run_Nil [simp]: "run [] w = w"
  by (simp add: run_def)

lemma run_Cons [simp]: "run (e # es) w = run es (step e w)"
  by (simp add: run_def)

lemma count_append: "count P (xs @ ys) = count P xs + count P ys"
  by (simp add: count_def)

text \<open>With no tick scheduled, the timer does nothing more.\<close>

lemma no_tick_idle: "pendingTicks (doc w) = 0 \<Longrightarrow> run (map Tick as) w = w"
  by (induction as) simp_all

text \<open>Every call of \<^verbatim>\<open>submitQuiz\<close> opens one confirmation dialog, so the dialogs
  of a trace count the calls.\<close>

lemma one_dialog_per_call: "count is_confirm (fst (snd (submitQuiz_begin a quizId s))) = 1"
  by (simp add: submitQuiz_begin_def count_def Let_def)

section \<open>The exam timer\<close>

text \<open>
  C4: with a duration of 5, the first four ticks leave a next tick scheduled
  and call nothing; the fifth tick brings \<^verbatim>\<open>remaining\<close> to 0 and calls
  \<^verbatim>\<open>submitQuiz\<close>, which makes one call in all, and schedules nothing, so that a
  further tick cannot happen. This holds whatever the student answers to a
  dialog (\<open>a1\<close> to \<open>a6\<close>).
\<close>

theorem timer_five_ticks:
  "remaining (doc (run [Tick a1, Tick a2, Tick a3, Tick a4] (exam_world q st 5 b qs))) = 1
 \<and> pendingTicks (doc (run [Tick a1, Tick a2, Tick a3, Tick a4] (exam_world q st 5 b qs))) = 1
 \<and> count is_confirm (trace (run [Tick a1, Tick a2, Tick a3, Tick a4] (exam_world q st 5 b qs))) = 0
 \<and> remaining (doc (run [Tick a1, Tick a2, Tick a3, Tick a4, Tick a5] (exam_world q st 5 b qs))) = 0
 \<and> pendingTicks (doc (run [Tick a1, Tick a2, Tick a3, Tick a4, Tick a5] (exam_world q st 5 b qs))) = 0
 \<and> count is_confirm
       (trace (run [Tick a1, Tick a2, Tick a3, Tick a4, Tick a5] (exam_world q st 5 b qs))) = 1
 \<and> step (Tick a6) (run [Tick a1, Tick a2, Tick a3, Tick a4, Tick a5] (exam_world q st 5 b qs))
     = run [Tick a1, Tick a2, Tick a3, Tick a4, Tick a5] (exam_world q st 5 b qs)"
  by (simp add: quiz_defs)

theorem timer_five_ticks_witness:
  "remaining (doc (run [Tick True, Tick True, Tick True, Tick True, Tick True]
      (exam_world ''Q9'' ''Nguyen An'' 5 True [ask ''1'' False [''A'', ''B'']]))) = 0
 \<and> trace (run [Tick True, Tick True, Tick True, Tick True, Tick True]
      (exam_world ''Q9'' ''Nguyen An'' 5 True [ask ''1'' False [''A'', ''B'']])) =
     trace (exam_world ''Q9'' ''Nguyen An'' 5 True [ask ''1'' False [''A'', ''B'']])
       @ [Confirm True, Req_submit ''Q9'' [(''1'', [])]]"
  using timer_five_ticks [of True True True True "''Q9''" "''Nguyen An''" True
      "[ask ''1'' False [''A'', ''B'']]" True True]
  by (simp add: quiz_defs ask_def serialize_answers_def format_answers_def
      collect_answers_def collect_input_def format_key_def qid_of_key_def property_key_def
      at_index_def obj_keys_def render_inputs_def make_input_def startsWith_def)

text \<open>The spec's example of the display: 65 seconds are shown as 01:05.\<close>

lemma render_65: "timerText (renderTimer (s\<lparr>remaining := 65\<rparr>)) = ''01:05''"
  by (simp add: renderTimer_def toString_def padStart_def js_rem_def digits.simps)

section \<open>The submission controller\<close>

text \<open>
  C10: when the confirmation dialog is declined, \<^verbatim>\<open>submitQuiz\<close> returns with
  the page as it was, no request and no suspended call: the dialog is all that
  happened. When this is the call made by the tick that reaches 0, the tick has
  scheduled no other one: whatever ticks the environment may still try, the
  trace ends with the declined dialog, the calls in flight are those there
  were, and no submission is sent.
\<close>

theorem declined_confirm_changes_nothing:
  "submitQuiz_begin False quizId s = (s, [Confirm False], None)
 \<and> (remaining s \<le> 1 \<longrightarrow>
      tick False s = (renderTimer (s\<lparr>remaining := remaining s - 1\<rparr>), [Confirm False], None))
 \<and> (remaining (doc w) \<le> 1 \<and> pendingTicks (doc w) = 1 \<longrightarrow>
      pendingTicks (doc (step (Tick False) w)) = 0
    \<and> inflight (run (map Tick as) (step (Tick False) w)) = inflight w
    \<and> trace (run (map Tick as) (step (Tick False) w)) = trace w @ [Confirm False])"
proof (intro conjI impI)
  show "submitQuiz_begin False quizId s = (s, [Confirm False], None)"
    by (simp add: submitQuiz_begin_def)
  show "tick False s = (renderTimer (s\<lparr>remaining := remaining s - 1\<rparr>), [Confirm False], None)"
    if "remaining s \<le> 1"
    using that by (simp add: tick_def submitQuiz_begin_def renderTimer_def Let_def)
next
  assume h: "remaining (doc w) \<le> 1 \<and> pendingTicks (doc w) = 1"
  then have st: "step (Tick False) w =
      \<lparr> doc = renderTimer ((doc w)\<lparr>pendingTicks := 0, remaining := remaining (doc w) - 1\<rparr>),
        inflight = inflight w, trace = trace w @ [Confirm False] \<rparr>"
    by (simp add: tick_def submitQuiz_begin_def renderTimer_def Let_def emit_def)
  show idle: "pendingTicks (doc (step (Tick False) w)) = 0"
    unfolding st by (simp add: renderTimer_def Let_def)
  from idle have same: "run (map Tick as) (step (Tick False) w) = step (Tick False) w"
    by (rule no_tick_idle)
  show "trace (run (map Tick as) (step (Tick False) w)) = trace w @ [Confirm False]"
    unfolding same unfolding st by simp
  show "inflight (run (map Tick as) (step (Tick False) w)) = inflight w"
    unfolding same unfolding st by simp
qed

theorem declined_confirm_changes_nothing_witness:
  "tick False (start_page ''Q9'' ''Nguyen An'' 1 True) =
     (renderTimer ((start_page ''Q9'' ''Nguyen An'' 1 True)\<lparr>remaining := 0\<rparr>),
      [Confirm False], None)
 \<and> inflight (run [Tick True, Tick False]
      (step (Tick False) (exam_world ''Q9'' ''Nguyen An'' 1 True []))) = []
 \<and> trace (run [Tick True, Tick False]
      (step (Tick False) (exam_world ''Q9'' ''Nguyen An'' 1 True []))) =
     trace (exam_world ''Q9'' ''Nguyen An'' 1 True []) @ [Confirm False]"
  using declined_confirm_changes_nothing [of "''Q9''" "start_page ''Q9'' ''Nguyen An'' 1 True"
     "exam_world ''Q9'' ''Nguyen An'' 1 True []" "[True, False]"]
  by (simp add: quiz_defs)

text \<open>
  C3, as the script has it: the confirmation dialog is the first act of every
  call of \<^verbatim>\<open>submitQuiz\<close>, and the request follows only when the dialog is
  accepted. The tick that reaches 0 makes such a call, so the automatic trigger
  asks as the manual one does.
\<close>

theorem confirm_on_both_triggers:
  "fst (snd (submitQuiz_begin a quizId s)) =
     (if a then [Confirm True, Req_submit quizId (serialize_answers (formInputs s))]
      else [Confirm False])
 \<and> (remaining s \<le> 1 \<longrightarrow>
      fst (snd (tick a s)) =
        (if a then [Confirm True, Req_submit (QUIZ_ID s) (serialize_answers (formInputs s))]
         else [Confirm False]))"
  by (simp add: submitQuiz_begin_def tick_def renderTimer_def Let_def)

theorem confirm_on_both_triggers_witness:
  "fst (snd (tick True (start_page ''Q9'' ''Nguyen An'' 1 True))) =
     [Confirm True, Req_submit ''Q9'' []]
 \<and> fst (snd (submitQuiz_begin False ''Q9'' (start_page ''Q9'' ''Nguyen An'' 1 True))) =
     [Confirm False]"
  using confirm_on_both_triggers [of True "''Q9''" "start_page ''Q9'' ''Nguyen An'' 1 True"]
    confirm_on_both_triggers [of False "''Q9''" "start_page ''Q9'' ''Nguyen An'' 1 True"]
  by (simp add: start_page_def serialize_answers_def format_answers_def collect_answers_def
      obj_keys_def)

text \<open>
  The claim C3 fails on the timer's side: in an exam of one second, the tick
  that reaches 0 opens the dialog, and when the student declines it nothing is
  sent and no call is suspended.
\<close>

theorem confirm_on_expiry_counterexample:
  "trace (run [Tick False] (exam_world ''Q9'' ''Nguyen An'' 1 True [])) =
     trace (exam_world ''Q9'' ''Nguyen An'' 1 True []) @ [Confirm False]
 \<and> inflight (run [Tick False] (exam_world ''Q9'' ''Nguyen An'' 1 True [])) = []"
  by (simp add: quiz_defs)

text \<open>
  C2, as the script has it: once the dialog is accepted the submit control is
  disabled before the request leaves (the call is suspended with the control
  disabled), and when the reply of the server has been read the control is
  enabled, whether the reply accepts the submission or rejects it.
\<close>

theorem submit_control_disabled_then_enabled:
  "submitQuiz_begin True quizId s =
     (s\<lparr>submitDisabled := True\<rparr>,
      [Confirm True, Req_submit quizId (serialize_answers (formInputs s))], Some Await_submit)
 \<and> submitDisabled (fst (submitQuiz_resume (Json data) s')) = False
 \<and> snd (submitQuiz_resume (Json data) s') = ([], None)"
  by (simp add: submitQuiz_begin_def submitQuiz_resume_def Let_def)

theorem submit_control_disabled_then_enabled_witness:
  "submitDisabled (fst (submitQuiz_begin True ''Q9'' (start_page ''Q9'' ''Nguyen An'' 5 True)))
 \<and> submitDisabled (fst (submitQuiz_resume (Json (accepted\<lparr>d_ok := False\<rparr>))
      (fst (submitQuiz_begin True ''Q9'' (start_page ''Q9'' ''Nguyen An'' 5 True))))) = False"
  using submit_control_disabled_then_enabled [of "''Q9''" "start_page ''Q9'' ''Nguyen An'' 5 True"
     "accepted\<lparr>d_ok := False\<rparr>"
     "fst (submitQuiz_begin True ''Q9'' (start_page ''Q9'' ''Nguyen An'' 5 True))"]
  by (simp add: submitQuiz_begin_def submitQuiz_resume_def Let_def)

text \<open>
  The claim C2 fails in both directions: after an accepted submission the
  control is enabled again, and after a request that failed on the network the
  call ends at its \<^verbatim>\<open>await\<close> and the control stays disabled.
\<close>

theorem submit_control_counterexample:
  "\<not> submitDisabled (fst (submitQuiz_resume (Json accepted)
        (fst (submitQuiz_begin True ''Q9'' (start_page ''Q9'' ''Nguyen An'' 5 True)))))
 \<and> submitDisabled (fst (submitQuiz_resume Failed
        (fst (submitQuiz_begin True ''Q9'' (start_page ''Q9'' ''Nguyen An'' 5 True)))))"
  by (simp add: submitQuiz_begin_def submitQuiz_resume_def Let_def accepted_def start_page_def)

text \<open>What a step adds to the trace has as many submission requests as accepted
  dialogs.\<close>

lemma step_trace:
  "\<exists>out. trace (step e w) = trace w @ out \<and> count is_submit out = count is_yes out"
proof (cases e)
  case (Tick a)
  then show ?thesis
    by (cases a) (simp_all add: emit_def tick_def submitQuiz_begin_def Let_def count_def)
next
  case (Click a)
  then show ?thesis
    by (cases a) (simp_all add: click_def emit_def submitQuiz_begin_def Let_def count_def)
next
  case (Deliver p r)
  then show ?thesis
    by (cases p; cases r)
       (simp_all add: emit_def resume_def got_def loadQuiz_resume_def submitQuiz_resume_def
          log_resume_def Let_def count_def split: option.splits)
next
  case Blur
  then show ?thesis by (simp add: emit_def on_blur_def count_def)
next
  case Banner_timeout
  then show ?thesis by (simp add: count_def)
next
  case (Select i)
  then show ?thesis by (simp add: count_def)
qed

lemma run_balanced:
  "count is_submit (trace w) = count is_yes (trace w) \<Longrightarrow>
   count is_submit (trace (run es w)) = count is_yes (trace (run es w))"
proof (induction es arbitrary: w)
  case Nil
  then show ?case by simp
next
  case (Cons e es)
  obtain out where "trace (step e w) = trace w @ out" "count is_submit out = count is_yes out"
    using step_trace by blast
  with Cons.prems have "count is_submit (trace (step e w)) = count is_yes (trace (step e w))"
    by (simp add: count_append)
  then show ?case using Cons.IH by simp
qed

text \<open>
  C1, as the script has it: \<^verbatim>\<open>submitQuiz\<close> keeps no record of a submission.
  In every run of the quiz page, the requests sent to the submission endpoint
  are as many as the confirmation dialogs that were accepted: each call whose
  dialog is accepted sends its request, also while another is in flight and
  after one was accepted.
\<close>

theorem one_request_per_confirmed_call:
  "count is_submit (trace (run es (start_world quizId student duration banner))) =
   count is_yes (trace (run es (start_world quizId student duration banner)))"
  by (rule run_balanced) (simp add: start_world_def emit_def loadQuiz_begin_def count_def)

theorem one_request_per_confirmed_call_witness:
  "count is_submit (trace (run
      [Deliver Await_quiz (Json (accepted\<lparr>d_questions := Some []\<rparr>)),
       Click True, Click True, Tick True, Deliver Await_submit (Json accepted), Click False]
      (start_world ''Q9'' ''Nguyen An'' 1 True))) = 2
 \<and> count is_yes (trace (run
      [Deliver Await_quiz (Json (accepted\<lparr>d_questions := Some []\<rparr>)),
       Click True, Click True, Tick True, Deliver Await_submit (Json accepted), Click False]
      (start_world ''Q9'' ''Nguyen An'' 1 True))) = 2"
  using one_request_per_confirmed_call [of
      "[Deliver Await_quiz (Json (accepted\<lparr>d_questions := Some []\<rparr>)),
        Click True, Click True, Tick True, Deliver Await_submit (Json accepted), Click False]"
      "''Q9''" "''Nguyen An''" 1 True]
  by (simp add: quiz_defs)

text \<open>
  The claim C1 fails: a second click after an accepted submission is submitted
  and accepted again; and a click followed at once by the expiry of the timer
  puts two requests in flight, both of which the server may accept.
\<close>

theorem single_submission_counterexample:
  "count is_accepted (trace (run
      [Click True, Deliver Await_submit (Json accepted),
       Click True, Deliver Await_submit (Json accepted)]
      (exam_world ''Q9'' ''Nguyen An'' 5 True []))) = 2
 \<and> count is_accepted (trace (run
      [Click True, Tick True, Deliver Await_submit (Json accepted),
       Deliver Await_submit (Json accepted)]
      (exam_world ''Q9'' ''Nguyen An'' 1 True []))) = 2"
  by (simp add: quiz_defs)

section \<open>The integrity reporter\<close>

lemma integrity_step: "integrity e \<Longrightarrow> exam_view (step e w) = exam_view w"
proof (cases e)
  case (Deliver p r)
  assume "integrity e"
  with Deliver have "p = Await_log" by (cases p) simp_all
  with Deliver show ?thesis
    by (simp add: exam_view_def handler_defs filter_remove1)
qed (simp_all add: exam_view_def exam_part_def handler_defs)

lemma exam_step: "\<not> integrity e \<Longrightarrow> exam_view (step e w) = exam_view (step e (exam_view w))"
proof (cases e)
  case (Tick a)
  then show ?thesis
    by (simp add: exam_view_def exam_part_def handler_defs)
next
  case (Click a)
  then show ?thesis
    by (simp add: exam_view_def exam_part_def handler_defs)
next
  case (Deliver p r)
  assume "\<not> integrity e"
  with Deliver have p: "p \<noteq> Await_log" by (cases p) simp_all
  show ?thesis
    unfolding Deliver using p
    by (cases p; cases r)
       (simp_all add: exam_view_def exam_part_def handler_defs filter_remove1
          split: option.splits)
next
  case (Select i)
  then show ?thesis
    by (simp add: exam_view_def exam_part_def)
qed simp_all

text \<open>Two worlds that differ in the reporter's part only stay so, when one of
  them is spared the reporter's events.\<close>

lemma run_view:
  "exam_view w = exam_view w' \<Longrightarrow>
   exam_view (run es w) = exam_view (run (filter (\<lambda>e. \<not> integrity e) es) w')"
proof (induction es arbitrary: w w')
  case Nil
  then show ?case by simp
next
  case (Cons e es)
  show ?case
  proof (cases "integrity e")
    case True
    then have "exam_view (step e w) = exam_view w'"
      using Cons.prems by (simp add: integrity_step)
    then show ?thesis
      using True Cons.IH by simp
  next
    case False
    then have "exam_view (step e w) = exam_view (step e w')"
      using Cons.prems exam_step [of e w] exam_step [of e w'] by simp
    then show ?thesis
      using False Cons.IH by simp
  qed
qed

text \<open>
  C9: a loss of focus sends one request to the log endpoint, with
  \<^verbatim>\<open>QUIZ_ID\<close>, \<^verbatim>\<open>STUDENT_NAME\<close> and the event "blur", and touches the banner
  only. Whatever becomes of that request, a failure included, its end leaves the
  page as it is and nothing uncaught. And the exam does not depend on the
  reporter: a run with its blurs, banner time-outs and log replies and the same
  run without them agree on the timer, the form, the submit control, the status
  line, the other calls in flight and the rest of the trace.
\<close>

theorem blur_report_is_harmless:
  "trace (step Blur w) = trace w @ [Req_log (QUIZ_ID (doc w)) (STUDENT_NAME (doc w)) ''blur'']
 \<and> inflight (step Blur w) = inflight w @ [Await_log]
 \<and> exam_part (doc (step Blur w)) = exam_part (doc w)
 \<and> doc (step (Deliver Await_log r) (step Blur w)) = doc (step Blur w)
 \<and> trace (step (Deliver Await_log r) (step Blur w)) = trace (step Blur w) @ [Got_log r]
 \<and> exam_view (run es w) = exam_view (run (filter (\<lambda>e. \<not> integrity e) es) w)"
proof (intro conjI)
  show "exam_view (run es w) = exam_view (run (filter (\<lambda>e. \<not> integrity e) es) w)"
    by (rule run_view) simp
qed (simp_all add: handler_defs exam_part_def)

theorem blur_report_is_harmless_witness:
  "trace (step Blur (exam_world ''Q9'' ''Nguyen An'' 5 True [])) =
     trace (exam_world ''Q9'' ''Nguyen An'' 5 True []) @ [Req_log ''Q9'' ''Nguyen An'' ''blur'']
 \<and> remaining (doc (run [Blur, Tick True, Deliver Await_log Failed, Tick True, Banner_timeout]
      (exam_world ''Q9'' ''Nguyen An'' 5 True []))) = 3
 \<and> exam_view (run [Blur, Tick True, Deliver Await_log Failed, Tick True, Banner_timeout]
      (exam_world ''Q9'' ''Nguyen An'' 5 True [])) =
     exam_view (run [Tick True, Tick True] (exam_world ''Q9'' ''Nguyen An'' 5 True []))"
  using blur_report_is_harmless [of "exam_world ''Q9'' ''Nguyen An'' 5 True []" Failed
      "[Blur, Tick True, Deliver Await_log Failed, Tick True, Banner_timeout]"]
  by (simp add: quiz_defs log_resume_def on_blur_def showAntiCheat_def banner_timeout_def)

section \<open>Joining a quiz\<close>



section \<open>The access code sent with a join request\<close>

lemma lrun_Nil [simp]: "lrun [] w = w"
  by (simp add: lrun_def)

lemma lrun_Cons [simp]: "lrun (e # es) w = lrun es (lstep e w)"
  by (simp add: lrun_def)

lemma retained_append: "retained cur (tr @ out) = retained (retained cur tr) out"
  by (induction cur tr rule: retained.induct) simp_all

lemma joins_ok_append:
  "joins_ok cur (tr @ out) = (joins_ok cur tr \<and> joins_ok (retained cur tr) out)"
  by (induction cur tr rule: joins_ok.induct) simp_all

text \<open>A retained code is the code of a check of the trace that returned ok.\<close>

lemma retained_verified:
  "retained cur tr = Some c \<Longrightarrow> cur = Some c \<or> (\<exists>x\<in>set tr. verified_by c x)"
  by (induction cur tr rule: retained.induct) (auto split: if_splits)

text \<open>
  The invariant of the landing page: \<^verbatim>\<open>currentCode\<close> is the code retained
  from the checks so far, every join request so far carried the code retained
  when it was sent, and a check has returned ok whenever the student form is
  displayed or a call of \<^verbatim>\<open>joinQuiz\<close> waits for its registration.
\<close>

lemma linv_start: "linv (start_landing ''none'')"
  by (simp add: linv_def start_landing_def student_form_shown_def)

lemma linv_step: "linv w \<Longrightarrow> linv (lstep e w)"
proof (cases e)
  case (Ldeliver p r)
  assume "linv w"
  then show ?thesis
    unfolding Ldeliver
    by (cases p; cases r)
       (auto simp add: linv_def lemit_def lresume_def lgot_def checkCode_resume_def
          joinQuiz_registered_def joinQuiz_joined_def retained_append joins_ok_append
          student_form_shown_def
          dest: notin_set_remove1)
qed (auto simp add: linv_def lemit_def checkCode_begin_def joinQuiz_begin_def Let_def
       retained_append joins_ok_append student_form_shown_def)

lemma linv_run: "linv w \<Longrightarrow> linv (lrun es w)"
  by (induction es arbitrary: w) (simp_all add: linv_step)

text \<open>
  C8: on a landing page whose student form is hidden when the script starts,
  the Session Joiner runs only after a check has succeeded. In every run,
  whenever the join endpoint is called, the access code \<open>c\<close> sent with it is
  the code retained from the checks before the request, and a call of
  \<^verbatim>\<open>checkCode\<close> with that very code has returned ok before the request was
  sent.
\<close>

theorem join_sends_verified_code:
  "ltrace (lrun es (start_landing ''none'')) = pre @ Req_join c # post \<longrightarrow>
     retained None pre = Some c \<and> (\<exists>x\<in>set pre. verified_by c x)"
proof
  assume split: "ltrace (lrun es (start_landing ''none'')) = pre @ Req_join c # post"
  have "linv (lrun es (start_landing ''none''))"
    by (rule linv_run) (rule linv_start)
  with split have "joins_ok None (pre @ Req_join c # post)"
    by (simp add: linv_def)
  then have "retained None pre = Some c"
    by (simp add: joins_ok_append)
  then show "retained None pre = Some c \<and> (\<exists>x\<in>set pre. verified_by c x)"
    using retained_verified [of None pre c] by simp
qed

text \<open>
  A run of the whole landing page: a join attempt on the hidden form does
  nothing, a check of a wrong code fails, the code typed with white space around
  it (a no-break space among it) is sent trimmed and accepted, and the join
  request that follows the registration carries that code.
\<close>

theorem join_sends_verified_code_witness:
  "ltrace (lrun [Join, Type_code ''XYZ'', Check,
                 Ldeliver (Await_check ''XYZ'') (Json (accepted\<lparr>d_ok := False\<rparr>)),
                 Type_code ([CHR 0x20, CHR 0xC2, CHR 0xA0] @ ''ABC123'' @ [CHR 0x20]), Check,
                 Ldeliver (Await_check ''ABC123'') (Json accepted),
                 Choose_class ''10A'', Choose_name ''Nguyen An'', Join,
                 Ldeliver Await_register (Json accepted)] (start_landing ''none''))
     = [Req_check ''XYZ'', Got_check ''XYZ'' (Json (accepted\<lparr>d_ok := False\<rparr>)),
        Req_check ''ABC123'', Got_check ''ABC123'' (Json accepted),
        Req_register ''Nguyen An'' ''10A'', Got_register (Json accepted)]
       @ Req_join ''ABC123'' # []
 \<and> retained None
       [Req_check ''XYZ'', Got_check ''XYZ'' (Json (accepted\<lparr>d_ok := False\<rparr>)),
        Req_check ''ABC123'', Got_check ''ABC123'' (Json accepted),
        Req_register ''Nguyen An'' ''10A'', Got_register (Json accepted)] = Some ''ABC123''"
proof -
  have tr: "ltrace (lrun [Join, Type_code ''XYZ'', Check,
                 Ldeliver (Await_check ''XYZ'') (Json (accepted\<lparr>d_ok := False\<rparr>)),
                 Type_code ([CHR 0x20, CHR 0xC2, CHR 0xA0] @ ''ABC123'' @ [CHR 0x20]), Check,
                 Ldeliver (Await_check ''ABC123'') (Json accepted),
                 Choose_class ''10A'', Choose_name ''Nguyen An'', Join,
                 Ldeliver Await_register (Json accepted)] (start_landing ''none''))
     = [Req_check ''XYZ'', Got_check ''XYZ'' (Json (accepted\<lparr>d_ok := False\<rparr>)),
        Req_check ''ABC123'', Got_check ''ABC123'' (Json accepted),
        Req_register ''Nguyen An'' ''10A'', Got_register (Json accepted)]
       @ Req_join ''ABC123'' # []"
    by (simp add: start_landing_def lemit_def joinQuiz_begin_def lresume_def lgot_def
        joinQuiz_registered_def accepted_def Let_def checkCode_begin_def checkCode_resume_def
        student_form_shown_def trim_def white_space_def strip.simps startsWith_def)
  from join_sends_verified_code [of _ _ "''ABC123''" "[]"] tr
  have "retained None
       [Req_check ''XYZ'', Got_check ''XYZ'' (Json (accepted\<lparr>d_ok := False\<rparr>)),
        Req_check ''ABC123'', Got_check ''ABC123'' (Json accepted),
        Req_register ''Nguyen An'' ''10A'', Got_register (Json accepted)] = Some ''ABC123''"
    by blast
  with tr show ?thesis by blast
qed

text \<open>A code that is a lone no-break space is missing input: nothing is sent.\<close>

lemma checkCode_blank:
  "checkCode_begin (s\<lparr>access_code := [CHR 0xC2, CHR 0xA0]\<rparr>) =
     (s\<lparr>access_code := [CHR 0xC2, CHR 0xA0], codeStatus := ''Vui long nhap ma ky thi!''\<rparr>,
      [], None)"
  by (simp add: checkCode_begin_def trim_def white_space_def strip.simps startsWith_def)

section \<open>The collected answers\<close>

lemmas collect_defs = serialize_answers_def format_answers_def collect_answers_def
  collect_input_def format_key_def qid_of_key_def property_key_def at_index_def obj_keys_def
  render_inputs_def make_input_def startsWith_def select_input_def ask_def

lemma replace_absent: "\<not> contains s ''[]'' \<Longrightarrow> replace s ''[]'' '''' = s"
  by (induction s) (auto simp add: startsWith_def)

lemma replace_suffix: "\<not> contains s ''[]'' \<Longrightarrow> replace (s @ ''[]'') ''[]'' '''' = s"
proof (induction s)
  case Nil
  then show ?case by (simp add: startsWith_def)
next
  case (Cons c cs)
  then show ?case
    by (cases cs) (auto simp add: startsWith_def)
qed

lemma split_absent: "d \<notin> set s \<Longrightarrow> split s d = [s]"
  by (induction s) auto

lemma qid_of_key_plain: "CHR ''_'' \<notin> set a \<Longrightarrow> qid_of_key (''q_'' @ a) = a"
  by (simp add: qid_of_key_def split_absent at_index_def property_key_def)

text \<open>For a plain id, the loop files the inputs of a question under "q_" and
  the id, with or without the brackets of a multi-select name.\<close>

lemma answer_key_plain:
  assumes "plain_id (q_id q)" "i_name i = input_name q"
  shows "answer_key i = ''q_'' @ q_id q"
proof -
  from assms(1) have nb: "\<not> contains (''q_'' @ q_id q) ''[]''"
    by (simp add: plain_id_def startsWith_def)
  show ?thesis
  proof (cases "q_multi q")
    case True
    then have "i_name i = (''q_'' @ q_id q) @ ''[]''"
      using assms(2) by (simp add: input_name_def)
    then show ?thesis
      unfolding answer_key_def using replace_suffix [OF nb] by simp
  next
    case False
    then have "i_name i = ''q_'' @ q_id q"
      using assms(2) by (simp add: input_name_def)
    then show ?thesis
      unfolding answer_key_def using replace_absent [OF nb] by simp
  qed
qed

lemma map_of_obj_set: "map_of (obj_set k v al) = (map_of al)(k \<mapsto> v)"
  by (induction al) (auto simp add: fun_eq_iff)

lemma collect_input_map:
  "map_of (collect_input A i) =
     (map_of A)(answer_key i \<mapsto> (case map_of A (answer_key i) of None \<Rightarrow> [] | Some vs \<Rightarrow> vs)
                                 @ (if i_checked i then [i_value i] else []))"
  by (auto simp add: collect_input_def answer_key_def Let_def map_of_obj_set fun_eq_iff
      split: option.splits)

text \<open>The first loop: a key is present as soon as one input has it, checked or
  not, and holds the checked values of its inputs in document order.\<close>

lemma collect_fold:
  "map_of (foldl collect_input A ins) k =
     (if k \<in> answer_key ` set ins
      then Some ((case map_of A k of None \<Rightarrow> [] | Some vs \<Rightarrow> vs) @ filed k ins)
      else map_of A k)"
proof (induction ins arbitrary: A)
  case Nil
  then show ?case by simp
next
  case (Cons i ins)
  show ?case
    by (auto simp add: Cons.IH collect_input_map filed_def filter_empty_conv image_iff
        split: option.splits)
qed

lemma format_key_other:
  "qid_of_key k' \<noteq> x \<Longrightarrow> map_of (format_key A F k') x = map_of F x"
  by (simp add: format_key_def map_of_obj_set split: option.splits)

lemma format_key_same:
  "map_of A k = Some v \<Longrightarrow> map_of (format_key A F k) (qid_of_key k) = Some v"
  by (simp add: format_key_def map_of_obj_set)

text \<open>The second loop, when no two keys are cut down to the same id.\<close>

lemma format_fold:
  "inj_on qid_of_key (set ks) \<Longrightarrow> k \<in> set ks \<Longrightarrow> map_of A k = Some v \<Longrightarrow>
   map_of (foldl (format_key A) F ks) (qid_of_key k) = Some v"
proof (induction ks arbitrary: F rule: rev_induct)
  case Nil
  then show ?case by simp
next
  case (snoc k' ks)
  show ?case
  proof (cases "k' = k")
    case True
    then show ?thesis using snoc.prems(3) by (simp add: format_key_same)
  next
    case False
    with snoc.prems have "k \<in> set ks" and "qid_of_key k' \<noteq> qid_of_key k"
      by (auto simp add: inj_on_def)
    moreover from snoc.prems(1) have "inj_on qid_of_key (set ks)"
      by (simp add: inj_on_def)
    ultimately show ?thesis
      using snoc.IH snoc.prems(3) by (simp add: format_key_other)
  qed
qed

lemma form_state_input:
  assumes "form_state qs inputs" "i \<in> set inputs"
  shows "\<exists>q'\<in>set qs. q_options q' \<noteq> [] \<and> i_name i = input_name q'"
proof -
  from assms have "i\<lparr>i_checked := False\<rparr> \<in> set (render_inputs qs)"
    unfolding form_state_def by (metis image_eqI set_map)
  then obtain q' opt where q': "q' \<in> set qs" "opt \<in> set (q_options q')"
    and eq: "i\<lparr>i_checked := False\<rparr> = make_input q' opt"
    by (auto simp add: render_inputs_def)
  have "i_name i = i_name (i\<lparr>i_checked := False\<rparr>)" by simp
  also have "\<dots> = i_name (make_input q' opt)" by (simp only: eq)
  also have "\<dots> = input_name q'" by (simp add: make_input_def input_name_def)
  finally have "i_name i = input_name q'" .
  moreover from q'(2) have "q_options q' \<noteq> []" by auto
  ultimately show ?thesis using q'(1) by blast
qed

text \<open>A key of the result of the second loop comes from a key of its input.\<close>

lemma format_fold_key:
  "map_of (foldl (format_key A) F ks) x = Some v \<Longrightarrow>
   map_of F x = Some v \<or> (\<exists>k\<in>set ks. qid_of_key k = x)"
proof (induction ks arbitrary: v rule: rev_induct)
  case Nil
  then show ?case by simp
next
  case (snoc k ks)
  show ?case
  proof (cases "qid_of_key k = x")
    case True
    then show ?thesis by simp
  next
    case False
    with snoc.prems have "map_of (foldl (format_key A) F ks) x = Some v"
      by (simp add: format_key_other)
    with snoc.IH show ?thesis by auto
  qed
qed

lemma form_state_question:
  assumes "form_state qs inputs" "q \<in> set qs" "q_options q \<noteq> []"
  shows "\<exists>i\<in>set inputs. i_name i = input_name q"
proof -
  from assms(3) obtain opt where "opt \<in> set (q_options q)"
    by (cases "q_options q") auto
  with assms(2) have "make_input q opt \<in> set (render_inputs qs)"
    by (auto simp add: render_inputs_def)
  with assms(1) have "make_input q opt \<in> set (map (\<lambda>i. i\<lparr>i_checked := False\<rparr>) inputs)"
    by (simp add: form_state_def)
  then obtain i where i: "i \<in> set inputs"
    and eq: "i\<lparr>i_checked := False\<rparr> = make_input q opt"
    by auto
  have "i_name i = i_name (i\<lparr>i_checked := False\<rparr>)" by simp
  also have "\<dots> = i_name (make_input q opt)" by (simp only: eq)
  also have "\<dots> = input_name q" by (simp add: make_input_def input_name_def)
  finally show ?thesis using i by blast
qed

lemma input_name_prefix: "startsWith (input_name q) ''q_''"
  by (simp add: input_name_def startsWith_def)

text \<open>The student's choices keep the form a form of the question set, and so
  does everything else that happens once the questions are rendered.\<close>

lemma select_input_form_state:
  "form_state qs xs \<Longrightarrow> form_state qs (select_input i xs)"
proof -
  have "map (\<lambda>i. i\<lparr>i_checked := False\<rparr>) (select_input i xs) =
        map (\<lambda>i. i\<lparr>i_checked := False\<rparr>) xs"
    by (auto simp add: select_input_def at_index_def map_update list_eq_iff_nth_eq
        nth_list_update split: input_type.splits)
  then show "form_state qs xs \<Longrightarrow> form_state qs (select_input i xs)"
    by (simp add: form_state_def)
qed

lemma make_input_unchecked: "(make_input q opt)\<lparr>i_checked := False\<rparr> = make_input q opt"
  by (simp add: make_input_def)

lemma render_inputs_form_state: "form_state qs (render_inputs qs)"
  by (simp add: form_state_def render_inputs_def map_concat comp_def make_input_unchecked)

lemma step_form_state:
  assumes "form_state qs (formInputs (doc w))" "Await_quiz \<notin> set (inflight w)"
  shows "form_state qs (formInputs (doc (step e w))) \<and> Await_quiz \<notin> set (inflight (step e w))"
proof (cases e)
  case (Deliver p r)
  show ?thesis
    unfolding Deliver using assms
    by (cases p; cases r) (auto simp add: handler_defs dest: notin_set_remove1)
next
  case (Select i)
  then show ?thesis
    using assms by (simp add: select_input_form_state)
qed (use assms in \<open>auto simp add: handler_defs\<close>)

lemma run_form_state:
  "form_state qs (formInputs (doc w)) \<Longrightarrow> Await_quiz \<notin> set (inflight w) \<Longrightarrow>
   form_state qs (formInputs (doc (run es w)))"
proof (induction es arbitrary: w)
  case Nil
  then show ?case by simp
next
  case (Cons e es)
  from step_form_state [OF Cons.prems] show ?case
    using Cons.IH by simp
qed

text \<open>Once the question set is rendered, the form stays a form of that set for
  the rest of the attempt: it is not fetched or rendered again.\<close>

lemma exam_form_state:
  "form_state qs (formInputs (doc (run es (exam_world quizId student duration banner qs))))"
proof (rule run_form_state)
  show "form_state qs (formInputs (doc (exam_world quizId student duration banner qs)))"
    using render_inputs_form_state [of qs] by (simp add: quiz_defs)
  show "Await_quiz \<notin> set (inflight (exam_world quizId student duration banner qs))"
    by (simp add: quiz_defs)
qed

text \<open>
  C5, as the script has it: let the ids of the question set be pairwise
  distinct and plain (no underscore and no pair of brackets in them). Then in
  every state of the form, each question that has at least one option has its id
  as a key of the serialized mapping, and the value is the list of the labels
  checked for it, in document order: exactly the one label of a single-select
  question, the chosen labels of a multi-select question, the empty list when
  nothing is chosen. A question that has no option has no key.
\<close>

theorem collected_answers:
  assumes form: "form_state qs inputs"
    and ids: "distinct (map q_id qs)"
    and plain: "\<forall>q'\<in>set qs. plain_id (q_id q')"
    and q: "q \<in> set qs"
  shows "map_of (serialize_answers inputs) (q_id q) =
           (if q_options q = [] then None else Some (selected q inputs))"
proof -
  define name where "name q' = ''q_'' @ q_id q'" for q' :: question
  define answers where "answers = collect_answers inputs"
  have names: "\<exists>q'\<in>set qs. q_options q' \<noteq> [] \<and> i_name i = input_name q'
      \<and> answer_key i = name q'"
    if "i \<in> set inputs" for i
    unfolding name_def using form_state_input [OF form that] plain answer_key_plain by blast
  have "startsWith (i_name i) ''q_''" if "i \<in> set inputs" for i
  proof -
    from names [OF that] obtain q' where "i_name i = input_name q'" by blast
    then show ?thesis by (simp only: input_name_prefix)
  qed
  then have keep: "filter (\<lambda>inp. startsWith (i_name inp) ''q_'') inputs = inputs"
    by (simp add: filter_id_conv)
  then have answers: "map_of answers k =
      (if k \<in> answer_key ` set inputs then Some (filed k inputs) else None)" for k
    by (simp add: answers_def collect_answers_def collect_fold)
  have qid: "qid_of_key (name q') = q_id q'" if "q' \<in> set qs" for q'
  proof -
    from plain that have "CHR ''_'' \<notin> set (q_id q')"
      by (simp add: plain_id_def)
    then show ?thesis
      unfolding name_def by (rule qid_of_key_plain)
  qed
  from ids have inj_id: "inj_on q_id (set qs)"
    by (simp add: distinct_map)
  have keys: "\<exists>q'\<in>set qs. q_options q' \<noteq> [] \<and> k = name q'"
    if "k \<in> set (obj_keys answers)" for k
  proof -
    from that have "map_of answers k \<noteq> None"
      by (simp add: obj_keys_def map_of_eq_None_iff)
    then have "k \<in> answer_key ` set inputs"
      by (simp add: answers split: if_splits)
    then show ?thesis using names by auto
  qed
  show ?thesis
  proof (cases "q_options q = []")
    case True
    have "map_of (format_answers answers) (q_id q) = None"
    proof (rule ccontr)
      assume "map_of (format_answers answers) (q_id q) \<noteq> None"
      then obtain v where "map_of (foldl (format_key answers) [] (obj_keys answers)) (q_id q) = Some v"
        by (auto simp add: format_answers_def)
      from format_fold_key [OF this] obtain k where
        k: "k \<in> set (obj_keys answers)" "qid_of_key k = q_id q"
        by auto
      from keys [OF k(1)] obtain q' where q': "q' \<in> set qs" "q_options q' \<noteq> []" "k = name q'"
        by blast
      with k(2) have "q_id q' = q_id q"
        by (simp add: qid)
      with inj_id q q'(1) have "q' = q"
        by (simp add: inj_on_def)
      with q'(2) True show False by simp
    qed
    with True show ?thesis
      by (simp add: serialize_answers_def answers_def)
  next
    case opts: False
    have group: "answer_key i = name q \<longleftrightarrow> i_name i = input_name q"
      if "i \<in> set inputs" for i
    proof
      assume "answer_key i = name q"
      moreover from names [OF that] obtain q' where q': "q' \<in> set qs"
        "i_name i = input_name q'" "answer_key i = name q'" by blast
      ultimately have "q_id q' = q_id q" by (simp add: name_def)
      with inj_id q q'(1) have "q' = q"
        by (simp add: inj_on_def)
      with q'(2) show "i_name i = input_name q" by simp
    next
      assume "i_name i = input_name q"
      with plain q show "answer_key i = name q"
        unfolding name_def using answer_key_plain by blast
    qed
    have "filter (\<lambda>i. i_checked i \<and> answer_key i = name q) inputs =
          filter (\<lambda>i. i_checked i \<and> i_name i = input_name q) inputs"
      by (rule filter_cong) (simp_all only: group)
    then have sel: "filed (name q) inputs = selected q inputs"
      by (simp only: filed_def selected_def)
    from form_state_question [OF form q opts] obtain i where
      i: "i \<in> set inputs" "i_name i = input_name q" by blast
    then have "answer_key i = name q"
      using group by blast
    with i(1) have "name q \<in> answer_key ` set inputs"
      by (rule rev_image_eqI [where x = i, OF _ sym])
    then have ans: "map_of answers (name q) = Some (selected q inputs)"
      by (simp only: answers sel if_True)
    have inj: "inj_on qid_of_key (set (obj_keys answers))"
    proof (rule inj_onI)
      fix k1 k2
      assume k1: "k1 \<in> set (obj_keys answers)"
        and k2: "k2 \<in> set (obj_keys answers)"
        and eq: "qid_of_key k1 = qid_of_key k2"
      from keys [OF k1] obtain q1 where q1: "q1 \<in> set qs" "k1 = name q1" by blast
      from keys [OF k2] obtain q2 where q2: "q2 \<in> set qs" "k2 = name q2" by blast
      from eq q1 q2 have "q_id q1 = q_id q2"
        by (simp add: qid)
      with q1(2) q2(2) show "k1 = k2"
        by (simp add: name_def)
    qed
    from ans have "map_of answers (name q) \<noteq> None"
      by simp
    then have "name q \<in> set (obj_keys answers)"
      by (simp add: obj_keys_def map_of_eq_None_iff)
    from format_fold [OF inj this ans]
    have "map_of (format_answers answers) (qid_of_key (name q)) = Some (selected q inputs)"
      by (simp add: format_answers_def)
    with opts show ?thesis
      by (simp add: serialize_answers_def answers_def qid [OF q])
  qed
qed

text \<open>
  The spec's three examples at once, and a question without options beside
  them: question 1 is single-select with B chosen, question 2 is multi-select
  with A and C chosen, question 3 is left unanswered, question 4 has nothing to
  choose from.
\<close>

theorem collected_answers_witness:
  "map_of (serialize_answers (formInputs (doc (run [Select 1, Select 3, Select 5]
      (exam_world ''Q9'' ''Nguyen An'' 5 True
         [ask ''1'' False [''A'', ''B'', ''C''], ask ''2'' True [''A'', ''B'', ''C''],
          ask ''3'' False [''A'', ''B''], ask ''4'' False []]))))) ''1'' = Some [''B'']
 \<and> map_of (serialize_answers (formInputs (doc (run [Select 1, Select 3, Select 5]
      (exam_world ''Q9'' ''Nguyen An'' 5 True
         [ask ''1'' False [''A'', ''B'', ''C''], ask ''2'' True [''A'', ''B'', ''C''],
          ask ''3'' False [''A'', ''B''], ask ''4'' False []]))))) ''2'' = Some [''A'', ''C'']
 \<and> map_of (serialize_answers (formInputs (doc (run [Select 1, Select 3, Select 5]
      (exam_world ''Q9'' ''Nguyen An'' 5 True
         [ask ''1'' False [''A'', ''B'', ''C''], ask ''2'' True [''A'', ''B'', ''C''],
          ask ''3'' False [''A'', ''B''], ask ''4'' False []]))))) ''3'' = Some []
 \<and> map_of (serialize_answers (formInputs (doc (run [Select 1, Select 3, Select 5]
      (exam_world ''Q9'' ''Nguyen An'' 5 True
         [ask ''1'' False [''A'', ''B'', ''C''], ask ''2'' True [''A'', ''B'', ''C''],
          ask ''3'' False [''A'', ''B''], ask ''4'' False []]))))) ''4'' = None"
proof -
  let ?qs = "[ask ''1'' False [''A'', ''B'', ''C''], ask ''2'' True [''A'', ''B'', ''C''],
              ask ''3'' False [''A'', ''B''], ask ''4'' False []]"
  let ?inputs = "formInputs (doc (run [Select 1, Select 3, Select 5]
                   (exam_world ''Q9'' ''Nguyen An'' 5 True ?qs)))"
  have form: "form_state ?qs ?inputs"
    by (rule exam_form_state)
  have ids: "distinct (map q_id ?qs)"
    by (simp add: ask_def)
  have plain: "\<forall>q'\<in>set ?qs. plain_id (q_id q')"
    by (simp add: ask_def plain_id_def startsWith_def)
  have inputs: "?inputs =
     [\<lparr>i_type = Radio, i_name = ''q_1'', i_value = ''A'', i_id = ''q1_A'', i_checked = False\<rparr>,
      \<lparr>i_type = Radio, i_name = ''q_1'', i_value = ''B'', i_id = ''q1_B'', i_checked = True\<rparr>,
      \<lparr>i_type = Radio, i_name = ''q_1'', i_value = ''C'', i_id = ''q1_C'', i_checked = False\<rparr>,
      \<lparr>i_type = Checkbox, i_name = ''q_2[]'', i_value = ''A'', i_id = ''q2_A'', i_checked = True\<rparr>,
      \<lparr>i_type = Checkbox, i_name = ''q_2[]'', i_value = ''B'', i_id = ''q2_B'', i_checked = False\<rparr>,
      \<lparr>i_type = Checkbox, i_name = ''q_2[]'', i_value = ''C'', i_id = ''q2_C'', i_checked = True\<rparr>,
      \<lparr>i_type = Radio, i_name = ''q_3'', i_value = ''A'', i_id = ''q3_A'', i_checked = False\<rparr>,
      \<lparr>i_type = Radio, i_name = ''q_3'', i_value = ''B'', i_id = ''q3_B'', i_checked = False\<rparr>]"
    by (simp add: quiz_defs render_inputs_def make_input_def ask_def select_input_def
        at_index_def eval_nat_numeral)
  have 1: "map_of (serialize_answers ?inputs) ''1'' =
      Some (selected (ask ''1'' False [''A'', ''B'', ''C'']) ?inputs)"
    using collected_answers [OF form ids plain, of "ask ''1'' False [''A'', ''B'', ''C'']"]
    by (simp add: ask_def)
  have 2: "map_of (serialize_answers ?inputs) ''2'' =
      Some (selected (ask ''2'' True [''A'', ''B'', ''C'']) ?inputs)"
    using collected_answers [OF form ids plain, of "ask ''2'' True [''A'', ''B'', ''C'']"]
    by (simp add: ask_def)
  have 3: "map_of (serialize_answers ?inputs) ''3'' =
      Some (selected (ask ''3'' False [''A'', ''B'']) ?inputs)"
    using collected_answers [OF form ids plain, of "ask ''3'' False [''A'', ''B'']"]
    by (simp add: ask_def)
  have 4: "map_of (serialize_answers ?inputs) ''4'' = None"
    using collected_answers [OF form ids plain, of "ask ''4'' False []"]
    by (simp add: ask_def)
  have s1: "selected (ask ''1'' False [''A'', ''B'', ''C'']) ?inputs = [''B'']"
    unfolding inputs by (simp add: selected_def input_name_def ask_def)
  have s2: "selected (ask ''2'' True [''A'', ''B'', ''C'']) ?inputs = [''A'', ''C'']"
    unfolding inputs by (simp add: selected_def input_name_def ask_def)
  have s3: "selected (ask ''3'' False [''A'', ''B'']) ?inputs = []"
    unfolding inputs by (simp add: selected_def input_name_def ask_def)
  from 1 2 3 4 show ?thesis
    unfolding s1 s2 s3 by simp
qed

text \<open>
  The claim C5 fails in four ways: a question with no option has no key at
  all; for the id "a_b" the answer is filed under "a", and for the id "x[]"
  under "x", so that the question's own id is no key; and when a single-select
  and a multi-select question share the id "1", the choice B of the one and
  the choice A of the other end in one list.
\<close>

theorem collected_answers_counterexample:
  "map_of (serialize_answers (formInputs (doc
      (exam_world ''Q9'' ''Nguyen An'' 5 True [ask ''7'' False []])))) ''7'' = None
 \<and> map_of (serialize_answers (formInputs (doc (run [Select 1]
      (exam_world ''Q9'' ''Nguyen An'' 5 True [ask ''a_b'' False [''A'', ''B'', ''C'']])))))
      ''a_b'' = None
 \<and> map_of (serialize_answers (formInputs (doc (run [Select 1]
      (exam_world ''Q9'' ''Nguyen An'' 5 True [ask ''x[]'' False [''A'', ''B'', ''C'']])))))
      ''x[]'' = None
 \<and> map_of (serialize_answers (formInputs (doc (run [Select 1, Select 3]
      (exam_world ''Q9'' ''Nguyen An'' 5 True
         [ask ''1'' False [''A'', ''B'', ''C''], ask ''1'' True [''A'', ''B'', ''C'']])))))
      ''1'' = Some [''B'', ''A'']"
  by (simp add: quiz_defs collect_defs eval_nat_numeral)

text \<open>
  C6 fails on the script: for the question set that holds the one question of
  id "a_b", the serialized mapping has the single key "a", which is the id of
  no question of the set. The key is cut at the first underscore of the id
  (\<^verbatim>\<open>k.split('_')[1]\<close>, line 134).
\<close>

theorem underscore_id_gives_foreign_key:
  "obj_keys (serialize_answers (formInputs (doc
      (exam_world ''Q9'' ''Nguyen An'' 5 True [ask ''a_b'' False [''A'', ''B'']])))) = [''a'']
 \<and> map q_id [ask ''a_b'' False [''A'', ''B'']] = [''a_b'']"
  by (simp add: quiz_defs collect_defs)

end
